theory Spec2Isabelle
  imports Complex_Main "HOL-Library.Word" "HOL-Library.Char_ord" "HOL-Library.List_Lexorder"
begin

chapter \<open>The model\<close>

section \<open>Python values shared by the modules\<close>

text \<open>
  The exceptions the modelled functions raise. A function that can raise returns
  \<open>py_error + 'a\<close>, with \<open>Inl\<close> for the exception.
\<close>

datatype py_error = AssertionError | AttributeError | IndexError | KeyError
  | NotImplementedError | RuntimeError | TypeError | ValueError | ZeroDivisionError
  | UnpicklingError | FileNotFoundError

text \<open>
  A Python \<open>dict\<close> keeps its keys in insertion order and holds each key once: an
  association list with distinct keys. \<open>d[k] = v\<close> replaces the value of a key that
  is present where it stands, and appends a new key at the end.
\<close>

fun dict_set :: "('k \<times> 'v) list \<Rightarrow> 'k \<Rightarrow> 'v \<Rightarrow> ('k \<times> 'v) list" where
  "dict_set [] k v = [(k, v)]"
| "dict_set ((k', v') # rest) k v =
     (if k' = k then (k, v) # rest else (k', v') # dict_set rest k v)"

text \<open>
  A tensor is its shape and its elements in row-major order. Elements are exact
  rationals: rounding is not modelled. \<open>torch.stack(ts, dim=0)\<close> raises
  \<open>RuntimeError\<close> on an empty list and on tensors of different shapes; otherwise the
  result has a new leading dimension of size \<open>len(ts)\<close>.
\<close>

datatype tensor = Tensor (shape: "nat list") (elems: "rat list")

definition torch_stack :: "tensor list \<Rightarrow> py_error + tensor" where
  "torch_stack ts =
     (case ts of
        [] \<Rightarrow> Inl RuntimeError
      | t # rest \<Rightarrow>
          if list_all (\<lambda>u. shape u = shape t) rest
          then Inr (Tensor (length ts # shape t) (concat (map elems ts)))
          else Inl RuntimeError)"

section \<open>Process-group state (\<open>DistMisc\<close> in \<open>src/utils/misc.py\<close>)\<close>

text \<open>
  What \<open>torch.distributed\<close> reports to the calling process: whether the package is
  available, whether a process group has been initialised, and the world size and rank
  of the group.
\<close>

record dist_env =
  dist_is_available :: bool
  dist_is_initialized :: bool
  dist_get_world_size :: int
  dist_get_rank :: int

definition is_dist_avail_and_initialized :: "dist_env \<Rightarrow> bool" where
  "is_dist_avail_and_initialized d = (dist_is_available d \<and> dist_is_initialized d)"

definition get_world_size :: "dist_env \<Rightarrow> int" where
  "get_world_size d = (if is_dist_avail_and_initialized d then dist_get_world_size d else 1)"

definition get_rank :: "dist_env \<Rightarrow> int" where
  "get_rank d = (if is_dist_avail_and_initialized d then dist_get_rank d else 0)"

definition is_main_process :: "dist_env \<Rightarrow> bool" where
  "is_main_process d = (get_rank d = 0)"

section \<open>Configuration dicts and namespaces (\<open>ConfigMisc\<close>)\<close>

text \<open>
  A configuration value is a \<open>dict\<close>, an \<open>argparse.Namespace\<close> or anything else (a
  leaf: a number, a string, a list, ...). The keys of a dict are strings or, as YAML and
  Python allow, other hashable values such as integers; the attributes of a namespace
  are always named by strings.
\<close>

datatype pykey = StrKey string | IntKey int

datatype 'a pyval = Leaf 'a
  | PyDict "(pykey \<times> 'a pyval) list"
  | Namespace "(string \<times> 'a pyval) list"







text \<open>
  \<open>plain_leaves\<close>: no value below the top is a namespace (the leaves are neither dicts
  nor namespaces). \<open>config_value\<close> adds what \<open>Namespace(**d)\<close> needs: at every level the
  keys are strings other than \<open>self\<close> (and, as in every Python dict, distinct).
\<close>

fun plain_leaves :: "'a pyval \<Rightarrow> bool"
  and plain_leaves_items :: "(pykey \<times> 'a pyval) list \<Rightarrow> bool" where
  "plain_leaves (Leaf x) = True"
| "plain_leaves (Namespace attrs) = False"
| "plain_leaves (PyDict dictionary) =
     (distinct (map fst dictionary) \<and> plain_leaves_items dictionary)"
| "plain_leaves_items [] = True"
| "plain_leaves_items ((key, v) # rest) = (plain_leaves v \<and> plain_leaves_items rest)"




section \<open>Collating a batch (\<open>DataModuleBase.collate_fn\<close>)\<close>

text \<open>
  One sample of a dataset is a dict from field names to values; a value is a tensor, a
  string, a nested dict, or something of another type.
\<close>

datatype sample = STensor tensor | SStr string | SDict "(string \<times> sample) list" | SOther

text \<open>
  Modelled from the spec: \<open>TensorMisc.NoCudaList\<close> is not under \<open>src/\<close>; it is taken
  to be a list holding the values it is built from. The collated batch holds, per field,
  a stacked tensor, such a list, or a nested batch.
\<close>

datatype batch = BTensor tensor | NoCudaList "sample list" | BDict "(string \<times> batch) list"

text \<open>
  \<open>torch.stack\<close> on a list of Python values: \<open>TypeError\<close> unless every element is a
  tensor.
\<close>

fun as_tensors :: "sample list \<Rightarrow> py_error + tensor list" where
  "as_tensors [] = Inr []"
| "as_tensors (STensor t # vs) =
     (case as_tensors vs of Inl e \<Rightarrow> Inl e | Inr ts \<Rightarrow> Inr (t # ts))"
| "as_tensors (_ # vs) = Inl TypeError"

definition stack_samples :: "sample list \<Rightarrow> py_error + tensor" where
  "stack_samples vs = (case as_tensors vs of Inl e \<Rightarrow> Inl e | Inr ts \<Rightarrow> torch_stack ts)"

text \<open>
  \<open>d[k]\<close> for a string \<open>k\<close>: a dict raises \<open>KeyError\<close> on a missing key, a tensor
  \<open>IndexError\<close>, anything else \<open>TypeError\<close>. \<open>column data k\<close> is
  \<open>list(map(lambda d: d[k], data))\<close>.
\<close>

fun getitem :: "sample \<Rightarrow> string \<Rightarrow> py_error + sample" where
  "getitem (SDict items) k = (case map_of items k of None \<Rightarrow> Inl KeyError | Some v \<Rightarrow> Inr v)"
| "getitem (STensor t) k = Inl IndexError"
| "getitem (SStr s) k = Inl TypeError"
| "getitem SOther k = Inl TypeError"

fun column :: "sample list \<Rightarrow> string \<Rightarrow> py_error + sample list" where
  "column [] k = Inr []"
| "column (d # ds) k =
     (case getitem d k of
        Inl e \<Rightarrow> Inl e
      | Inr v \<Rightarrow> (case column ds k of Inl e \<Rightarrow> Inl e | Inr vs \<Rightarrow> Inr (v # vs)))"

text \<open>A value looked up in a dict is smaller than the dict: the recursion of
  \<open>collate_fn\<close> on a column of nested dicts terminates.\<close>

lemma map_of_size: "map_of items k = Some v \<Longrightarrow> size v < Suc (size_list (size_prod (\<lambda>_. 0) size) items)"
  by (induction items) (auto split: if_splits)

lemma getitem_size: "getitem d k = Inr v \<Longrightarrow> size v < size d"
  by (cases d) (auto split: option.splits dest: map_of_size)

lemma column_hd_size: "column (d # ds) k = Inr vs \<Longrightarrow> \<exists>v rest. vs = v # rest \<and> size v < size d"
  by (auto split: sum.splits dest: getitem_size)

text \<open>
  \<open>collate_fn\<close> iterates over the items of \<open>data[0]\<close> (\<open>IndexError\<close> on an empty list,
  \<open>AttributeError\<close> when \<open>data[0]\<close> has no \<open>items\<close>); \<open>collate_loop\<close> is the \<open>for\<close>
  loop, with the batch built so far.
\<close>

function (sequential) collate_fn :: "sample list \<Rightarrow> py_error + (string \<times> batch) list"
  and collate_loop :: "(string \<times> sample) list \<Rightarrow> sample list \<Rightarrow> (string \<times> batch) list
        \<Rightarrow> py_error + (string \<times> batch) list" where
  "collate_fn [] = Inl IndexError"
| "collate_fn (SDict items # ds) = collate_loop items (SDict items # ds) []"
| "collate_fn (_ # ds) = Inl AttributeError"
| "collate_loop [] data batch = Inr batch"
| "collate_loop ((k, STensor t) # rest) data batch =
     (case column data k of
        Inl e \<Rightarrow> Inl e
      | Inr vs \<Rightarrow>
          (case stack_samples vs of
             Inl e \<Rightarrow> Inl e
           | Inr stacked \<Rightarrow> collate_loop rest data (dict_set batch k (BTensor stacked))))"
| "collate_loop ((k, SStr s) # rest) data batch =
     (case column data k of
        Inl e \<Rightarrow> Inl e
      | Inr vs \<Rightarrow> collate_loop rest data (dict_set batch k (NoCudaList vs)))"
| "collate_loop ((k, SDict sub) # rest) data batch =
     (case column data k of
        Inl e \<Rightarrow> Inl e
      | Inr vs \<Rightarrow>
          (case collate_fn vs of
             Inl e \<Rightarrow> Inl e
           | Inr b \<Rightarrow> collate_loop rest data (dict_set batch k (BDict b))))"
| "collate_loop ((k, SOther) # rest) data batch = Inl NotImplementedError"
  by pat_completeness auto

termination
proof (relation "measures
    [\<lambda>x. case x of
            Inl data \<Rightarrow> (case data of [] \<Rightarrow> 0 | d # _ \<Rightarrow> 2 * size d + 1)
          | Inr (items, data, batch) \<Rightarrow> (case data of [] \<Rightarrow> 1 | d # _ \<Rightarrow> 2 * size d),
     \<lambda>x. case x of Inl data \<Rightarrow> 0 | Inr (items, data, batch) \<Rightarrow> length items]",
    goal_cases)
  case 1
  then show ?case by simp
next
  case (2 items ds)
  then show ?case by simp
next
  case (3 k t rest data batch x2 x2a)
  then show ?case by simp
next
  case (4 k s rest data batch x2)
  then show ?case by simp
next
  case (5 k sub rest data batch vs)
  show ?case
  proof (cases data)
    case Nil
    with 5 show ?thesis by simp
  next
    case (Cons d ds)
    with 5 obtain v vs' where "vs = v # vs'" and "size v < size d"
      using column_hd_size by blast
    with Cons show ?thesis by simp
  qed
next
  case (6 k sub rest data batch x2 x2a)
  then show ?case by simp
qed


text \<open>
  \<open>conforms first d\<close>: \<open>d\<close> has the keys and value shapes of \<open>first\<close>: where \<open>first\<close>
  has a tensor, \<open>d\<close> has a tensor of the same shape; where it has a string, a string;
  where it has a dict, a dict with the same key set (in any order) whose values conform
  in turn. \<open>contains_other\<close>: a value of another type occurs, at any depth.
\<close>

fun conforms :: "sample \<Rightarrow> sample \<Rightarrow> bool"
  and conforms_items :: "(string \<times> sample) list \<Rightarrow> (string \<times> sample) list \<Rightarrow> bool" where
  "conforms (STensor t) (STensor u) = (shape u = shape t)"
| "conforms (STensor t) _ = False"
| "conforms (SStr s) (SStr s') = True"
| "conforms (SStr s) _ = False"
| "conforms SOther _ = True"
| "conforms (SDict items) (SDict items') =
     (distinct (map fst items') \<and> set (map fst items') = set (map fst items)
      \<and> conforms_items items items')"
| "conforms (SDict items) _ = False"
| "conforms_items [] items' = True"
| "conforms_items ((k, v) # rest) items' =
     ((case map_of items' k of None \<Rightarrow> False | Some w \<Rightarrow> conforms v w)
      \<and> conforms_items rest items')"

fun contains_other :: "sample \<Rightarrow> bool"
  and contains_other_items :: "(string \<times> sample) list \<Rightarrow> bool" where
  "contains_other SOther = True"
| "contains_other (STensor t) = False"
| "contains_other (SStr s) = False"
| "contains_other (SDict items) = contains_other_items items"
| "contains_other_items [] = False"
| "contains_other_items ((k, v) # rest) = (contains_other v \<or> contains_other_items rest)"

text \<open>Auxiliaries of the proofs: what the batch holds for one item of the first
  sample, and what the loop returns from a batch built so far.\<close>

fun collated_entry :: "sample list \<Rightarrow> string \<Rightarrow> sample \<Rightarrow> batch option \<Rightarrow> bool" where
  "collated_entry data k (STensor t) r =
     (\<exists>vs ts. column data k = Inr vs \<and> as_tensors vs = Inr ts \<and> length ts = length data
        \<and> r = Some (BTensor (Tensor (length data # shape t) (concat (map elems ts)))))"
| "collated_entry data k (SStr s) r =
     (\<exists>vs. column data k = Inr vs \<and> length vs = length data
        \<and> (\<forall>w \<in> set vs. \<exists>s'. w = SStr s') \<and> r = Some (NoCudaList vs))"
| "collated_entry data k (SDict sub) r =
     (\<exists>vs b. column data k = Inr vs \<and> length vs = length data
        \<and> collate_fn vs = Inr b \<and> r = Some (BDict b))"
| "collated_entry data k SOther r = False"

definition loop_result :: "(string \<times> sample) list \<Rightarrow> sample list \<Rightarrow> (string \<times> batch) list
    \<Rightarrow> py_error + (string \<times> batch) list \<Rightarrow> bool" where
  "loop_result items data batch r =
     (if contains_other_items items then r = Inl NotImplementedError
      else \<exists>new. r = Inr (batch @ new) \<and> map fst new = map fst items
             \<and> (\<forall>(k, v) \<in> set items. collated_entry data k v (map_of new k)))"

text \<open>Two samples with the same fields, listed in different orders.\<close>

definition example_first :: "(string \<times> sample) list" where
  "example_first = [(''x'', STensor (Tensor [2] [1, 2])), (''name'', SStr ''a''),
                    (''meta'', SDict [(''y'', STensor (Tensor [] [5]))])]"

definition example_second :: sample where
  "example_second = SDict [(''name'', SStr ''b''), (''x'', STensor (Tensor [2] [3, 4])),
                           (''meta'', SDict [(''y'', STensor (Tensor [] [6]))])]"

section \<open>Checkpoints (\<open>TrainerMisc.save_checkpoint\<close>, \<open>TrainerMisc.resume_training\<close>)\<close>

text \<open>
  A checkpoint file holds a dict from strings to state dicts, metric dicts and integers.
  State dicts are opaque (\<open>'sd\<close>): \<open>state_dict()\<close> reads the state of a module,
  optimizer, scheduler or scaler, \<open>load_state_dict\<close> replaces it. The work directory is
  the list of its files, each name once, with their contents; its path is not modelled
  (the glob patterns are matched against the names in the directory).
\<close>

type_synonym metrics = "(string \<times> rat) list"

datatype 'sd ckpt_value = StateDict 'sd | Metrics metrics | IntValue int

type_synonym 'sd checkpoint = "(string \<times> 'sd ckpt_value) list"

type_synonym 'sd work_dir = "(string \<times> 'sd checkpoint) list"

text \<open>
  The entries of \<open>trainer_status\<close> and of \<open>cfg\<close> the two functions use. \<open>resume\<close> and
  \<open>device\<close> are the truth values of \<open>cfg.trainer.resume\<close> and \<open>cfg.env.device\<close>;
  \<open>len_train_loader\<close> is \<open>len(trainer_status['train_loader'])\<close>.
\<close>

record 'sd trainer_status =
  model_without_ddp :: 'sd
  optimizer :: 'sd
  lr_scheduler :: 'sd
  scaler :: 'sd
  epoch :: int
  start_epoch :: int
  best_metrics :: metrics
  metrics :: metrics
  train_iters :: int
  len_train_loader :: int

record trainer_cfg =
  resume :: bool
  amp :: bool
  device :: bool
  save_interval :: int

text \<open>
  Both functions mutate their arguments, so a call that raises leaves the state it
  reached: an outcome carries the state either way.
\<close>

datatype 's outcome = Returned 's | Raised py_error 's


text \<open>\<open>f'{epoch_finished}'\<close>: the decimal digits of an integer.\<close>

fun str_nat :: "nat \<Rightarrow> string" where
  "str_nat n = (if n < 10 then [''0123456789'' ! n]
                else str_nat (n div 10) @ [''0123456789'' ! (n mod 10)])"

definition str_int :: "int \<Rightarrow> string" where
  "str_int i = (if i < 0 then CHR ''-'' # str_nat (nat (- i)) else str_nat (nat i))"

text \<open>
  \<open>glob\<close> with a pattern \<open>pre*suf\<close>: the names of the directory that start with \<open>pre\<close>
  and end with \<open>suf\<close>. \<open>torch.save\<close> creates or overwrites a file; \<open>os.rename\<close> moves a
  file, replacing the destination.
\<close>

definition fnmatch :: "string \<Rightarrow> string \<Rightarrow> string \<Rightarrow> bool" where
  "fnmatch pre suf name =
     (length pre + length suf \<le> length name
      \<and> take (length pre) name = pre
      \<and> drop (length name - length suf) name = suf)"

definition glob :: "string \<Rightarrow> string \<Rightarrow> (string \<times> 'c) list \<Rightarrow> string list" where
  "glob pre suf dir = filter (fnmatch pre suf) (map fst dir)"

definition torch_save :: "'c \<Rightarrow> string \<Rightarrow> (string \<times> 'c) list \<Rightarrow> (string \<times> 'c) list" where
  "torch_save obj name dir = dict_set dir name obj"

definition torch_load :: "string \<Rightarrow> (string \<times> 'c) list \<Rightarrow> py_error + 'c" where
  "torch_load name dir = (case map_of dir name of None \<Rightarrow> Inl FileNotFoundError | Some c \<Rightarrow> Inr c)"

definition os_rename :: "string \<Rightarrow> string \<Rightarrow> (string \<times> 'c) list \<Rightarrow> py_error + (string \<times> 'c) list" where
  "os_rename src dst dir =
     (case map_of dir src of
        None \<Rightarrow> Inl FileNotFoundError
      | Some c \<Rightarrow>
          if src = dst then Inr dir
          else Inr (dict_set (filter (\<lambda>(name, _). name \<noteq> src) dir) dst c))"

definition best_prefix :: string where "best_prefix = ''checkpoint_best_epoch_''"
definition last_prefix :: string where "last_prefix = ''checkpoint_last_epoch_''"

text \<open>
  The block \<open>save_checkpoint\<close> runs for the best and for the last checkpoint: glob the
  files of the kind, assert there is at most one, overwrite the one found and rename it
  to the finished epoch, or write a new file.
\<close>

definition save_single :: "string \<Rightarrow> 'c \<Rightarrow> int \<Rightarrow> (string \<times> 'c) list
    \<Rightarrow> py_error + (string \<times> 'c) list" where
  "save_single prefix save_files epoch_finished dir =
     (let found = glob prefix ''.pth'' dir;
          target = prefix @ str_int epoch_finished @ ''.pth''
      in if \<not> length found \<le> 1 then Inl AssertionError
         else if length found = 1
         then os_rename (found ! 0) target (torch_save save_files (found ! 0) dir)
         else Inr (torch_save save_files target dir))"

text \<open>\<open>dict.update\<close> with the entries of another dict.\<close>

definition dict_update :: "('k \<times> 'v) list \<Rightarrow> ('k \<times> 'v) list \<Rightarrow> ('k \<times> 'v) list" where
  "dict_update d new = fold (\<lambda>(k, v) acc. dict_set acc k v) new d"

text \<open>
  \<open>choose_best\<close> is \<open>trainer_status['metric_criterion'].choose_best\<close>, which is not
  under \<open>src/\<close>: a parameter. \<open>%\<close> raises \<open>ZeroDivisionError\<close> on a zero interval.
\<close>

definition save_checkpoint :: "dist_env \<Rightarrow> trainer_cfg \<Rightarrow> (metrics \<Rightarrow> metrics \<Rightarrow> metrics \<times> bool)
    \<Rightarrow> 'sd trainer_status \<times> 'sd work_dir \<Rightarrow> ('sd trainer_status \<times> 'sd work_dir) outcome" where
  "save_checkpoint d cfg choose_best s =
     (case s of (ts, dir) \<Rightarrow>
      if is_main_process d then
        let epoch_finished = epoch ts;
            (best, save_flag) = choose_best (metrics ts) (best_metrics ts);
            ts1 = ts\<lparr>best_metrics := best\<rparr>;
            save_files = [(''model'', StateDict (model_without_ddp ts1)),
                          (''best_metrics'', Metrics (best_metrics ts1)),
                          (''epoch'', IntValue epoch_finished)]
        in case (if save_flag then save_single best_prefix save_files epoch_finished dir
                 else Inr dir) of
             Inl e \<Rightarrow> Raised e (ts1, dir)
           | Inr dir1 \<Rightarrow>
               if save_interval cfg = 0 then Raised ZeroDivisionError (ts1, dir1)
               else if (epoch ts1 + 1) mod save_interval cfg = 0 then
                 let save_files1 = dict_update save_files
                       [(''optimizer'', StateDict (optimizer ts1)),
                        (''lr_scheduler'', StateDict (lr_scheduler ts1)),
                        (''last_metric'', Metrics (metrics ts1))];
                     save_files2 = (if amp cfg \<and> device cfg
                        then dict_update save_files1 [(''scaler'', StateDict (scaler ts1))]
                        else save_files1)
                 in case save_single last_prefix save_files2 epoch_finished dir1 of
                      Inl e \<Rightarrow> Raised e (ts1, dir1)
                    | Inr dir2 \<Rightarrow> Returned (ts1, dir2)
               else Returned (ts1, dir1)
      else Returned (ts, dir))"

text \<open>
  Reading a checkpoint: \<open>checkpoint[key]\<close> raises \<open>KeyError\<close> on a missing key,
  \<open>checkpoint.get(key, {})\<close> gives the empty dict. An entry of the wrong kind is a
  \<open>TypeError\<close> here.
\<close>

fun load_state_dict :: "'sd ckpt_value option \<Rightarrow> py_error + 'sd" where
  "load_state_dict None = Inl KeyError"
| "load_state_dict (Some (StateDict sd)) = Inr sd"
| "load_state_dict (Some _) = Inl TypeError"

fun get_metrics :: "'sd ckpt_value option \<Rightarrow> py_error + metrics" where
  "get_metrics None = Inr []"
| "get_metrics (Some (Metrics m)) = Inr m"
| "get_metrics (Some _) = Inl TypeError"

fun get_int :: "'sd ckpt_value option \<Rightarrow> py_error + int" where
  "get_int None = Inl KeyError"
| "get_int (Some (IntValue i)) = Inr i"
| "get_int (Some _) = Inl TypeError"

definition resume_training :: "trainer_cfg \<Rightarrow> 'sd work_dir \<Rightarrow> 'sd trainer_status
    \<Rightarrow> 'sd trainer_status outcome" where
  "resume_training cfg dir ts =
     (if resume cfg then
        let checkpoint_path = glob last_prefix ''.pth'' dir in
        if length checkpoint_path \<noteq> 1 then Raised AssertionError ts
        else case torch_load (checkpoint_path ! 0) dir of
          Inl e \<Rightarrow> Raised e ts
        | Inr checkpoint \<Rightarrow>
        (case load_state_dict (map_of checkpoint ''model'') of
          Inl e \<Rightarrow> Raised e ts
        | Inr m \<Rightarrow> let ts1 = ts\<lparr>model_without_ddp := m\<rparr> in
        (case load_state_dict (map_of checkpoint ''optimizer'') of
          Inl e \<Rightarrow> Raised e ts1
        | Inr opt \<Rightarrow> let ts2 = ts1\<lparr>optimizer := opt\<rparr> in
        (case load_state_dict (map_of checkpoint ''lr_scheduler'') of
          Inl e \<Rightarrow> Raised e ts2
        | Inr sched \<Rightarrow> let ts3 = ts2\<lparr>lr_scheduler := sched\<rparr> in
        (case (if amp cfg then load_state_dict (map_of checkpoint ''scaler'')
               else Inr (scaler ts3)) of
          Inl e \<Rightarrow> Raised e ts3
        | Inr sc \<Rightarrow> let ts4 = ts3\<lparr>scaler := sc\<rparr> in
        (case get_int (map_of checkpoint ''epoch'') of
          Inl e \<Rightarrow> Raised e ts4
        | Inr e1 \<Rightarrow> let ts5 = ts4\<lparr>start_epoch := e1 + 1\<rparr> in
        (case get_metrics (map_of checkpoint ''best_metrics'') of
          Inl e \<Rightarrow> Raised e ts5
        | Inr bm \<Rightarrow> let ts6 = ts5\<lparr>best_metrics := bm\<rparr> in
        (case get_metrics (map_of checkpoint ''last_metrics'') of
          Inl e \<Rightarrow> Raised e ts6
        | Inr lm \<Rightarrow> let ts7 = ts6\<lparr>metrics := lm\<rparr> in
        (case get_int (map_of checkpoint ''epoch'') of
          Inl e \<Rightarrow> Raised e ts7
        | Inr e2 \<Rightarrow> Returned (ts7\<lparr>train_iters := e2 * len_train_loader ts7\<rparr>)))))))))
      else Returned ts)"




text \<open>An example: epoch 3 finished, a checkpoint every second epoch.\<close>

definition main_env :: dist_env where
  "main_env = \<lparr>dist_is_available = True, dist_is_initialized = False,
                dist_get_world_size = 1, dist_get_rank = 0\<rparr>"

definition example_cfg :: trainer_cfg where
  "example_cfg = \<lparr>resume = True, amp = False, device = True, save_interval = 2\<rparr>"

definition example_status :: "string trainer_status" where
  "example_status = \<lparr>model_without_ddp = ''model@3'', optimizer = ''optimizer@3'',
     lr_scheduler = ''scheduler@3'', scaler = ''scaler@3'', epoch = 3, start_epoch = 1,
     best_metrics = [(''loss'', 1)], metrics = [(''loss'', 1 / 2)],
     train_iters = 300, len_train_loader = 100\<rparr>"

definition new_status :: "string trainer_status" where
  "new_status = \<lparr>model_without_ddp = ''model@0'', optimizer = ''optimizer@0'',
     lr_scheduler = ''scheduler@0'', scaler = ''scaler@0'', epoch = 0, start_epoch = 1,
     best_metrics = [], metrics = [], train_iters = 0, len_train_loader = 100\<rparr>"

definition example_dir :: "string work_dir" where
  "example_dir = [(''checkpoint_last_epoch_1.pth'', []), (''cfg.yaml'', []),
                  (''checkpoint_best_epoch_0.pth'', [])]"

definition always_best :: "metrics \<Rightarrow> metrics \<Rightarrow> metrics \<times> bool" where
  "always_best current best = (current, True)"

definition saved_dir :: "string work_dir" where
  "saved_dir = [(''cfg.yaml'', []),
     (''checkpoint_best_epoch_3.pth'',
        [(''model'', StateDict ''model@3''), (''best_metrics'', Metrics [(''loss'', 1 / 2)]),
         (''epoch'', IntValue 3)]),
     (''checkpoint_last_epoch_3.pth'',
        [(''model'', StateDict ''model@3''), (''best_metrics'', Metrics [(''loss'', 1 / 2)]),
         (''epoch'', IntValue 3), (''optimizer'', StateDict ''optimizer@3''),
         (''lr_scheduler'', StateDict ''scheduler@3''),
         (''last_metric'', Metrics [(''loss'', 1 / 2)])])]"

section \<open>Gathering picklable data (\<open>DistMisc.all_gather\<close>)\<close>

text \<open>
  Buffers are lists of bytes. \<open>pickle.dumps\<close> and \<open>pickle.loads\<close> are parameters;
  \<open>loads\<close> can raise. \<open>torch.empty\<close> returns uninitialised memory: its contents are
  whatever the parameter \<open>memory\<close> holds. The collective \<open>dist.all_gather(out, x)\<close>
  fills the \<open>world_size\<close> slots of \<open>out\<close> with the contributions of the ranks, in rank
  order; \<open>datas\<close> lists the argument every rank calls \<open>all_gather\<close> with, and the
  calling process is rank \<open>get_rank\<close>.
\<close>

type_synonym byte = "8 word"

definition torch_empty :: "(nat \<Rightarrow> byte) \<Rightarrow> nat \<Rightarrow> byte list" where
  "torch_empty memory n = map memory [0..<n]"

definition dist_all_gather :: "int \<Rightarrow> 'x list \<Rightarrow> 'x list" where
  "dist_all_gather world_size contributions = map (\<lambda>i. contributions ! i) [0..<nat world_size]"

text \<open>\<open>max\<close> of a list raises \<open>ValueError\<close> on the empty list.\<close>

fun py_max :: "nat list \<Rightarrow> py_error + nat" where
  "py_max [] = Inl ValueError"
| "py_max (x # xs) = Inr (fold max xs x)"

text \<open>The padding of the local tensor to \<open>max_size\<close>, when the sizes differ.\<close>

definition pad_to :: "(nat \<Rightarrow> byte) \<Rightarrow> nat \<Rightarrow> byte list \<Rightarrow> byte list" where
  "pad_to memory max_size tensor =
     (if length tensor \<noteq> max_size
      then tensor @ torch_empty memory (max_size - length tensor)
      else tensor)"

text \<open>The final loop: truncate each gathered buffer to its rank's size and unpickle.\<close>

fun unpickle_all :: "(byte list \<Rightarrow> py_error + 'a) \<Rightarrow> (nat \<times> byte list) list \<Rightarrow> py_error + 'a list" where
  "unpickle_all loads [] = Inr []"
| "unpickle_all loads ((n, tensor) # rest) =
     (case loads (take n tensor) of
        Inl e \<Rightarrow> Inl e
      | Inr x \<Rightarrow>
          (case unpickle_all loads rest of Inl e \<Rightarrow> Inl e | Inr xs \<Rightarrow> Inr (x # xs)))"

text \<open>
  What the two collectives deliver: the sizes of the ranks' pickled buffers, and the
  ranks' padded buffers (rank \<open>r\<close> pads with its own memory \<open>memory r\<close>).
\<close>

definition gathered_sizes :: "int \<Rightarrow> ('a \<Rightarrow> byte list) \<Rightarrow> 'a list \<Rightarrow> nat list" where
  "gathered_sizes world_size dumps datas =
     dist_all_gather world_size (map (\<lambda>data. length (dumps data)) datas)"

definition gathered_tensors :: "int \<Rightarrow> ('a \<Rightarrow> byte list) \<Rightarrow> (nat \<Rightarrow> nat \<Rightarrow> byte) \<Rightarrow> nat
    \<Rightarrow> 'a list \<Rightarrow> byte list list" where
  "gathered_tensors world_size dumps memory max_size datas =
     dist_all_gather world_size
       (map (\<lambda>(rank, data). pad_to (memory rank) max_size (dumps data))
          (zip [0..<length datas] datas))"

definition all_gather :: "dist_env \<Rightarrow> ('a \<Rightarrow> byte list) \<Rightarrow> (byte list \<Rightarrow> py_error + 'a)
    \<Rightarrow> (nat \<Rightarrow> nat \<Rightarrow> byte) \<Rightarrow> 'a list \<Rightarrow> py_error + 'a list" where
  "all_gather d dumps loads memory datas =
     (let world_size = get_world_size d;
          data = datas ! nat (get_rank d)
      in if world_size = 1 then Inr [data]
         else
           let size_list = gathered_sizes world_size dumps datas
           in case py_max size_list of
                Inl e \<Rightarrow> Inl e
              | Inr max_size \<Rightarrow>
                  unpickle_all loads
                    (zip size_list (gathered_tensors world_size dumps memory max_size datas)))"

text \<open>An example: numbers pickled in unary, three ranks with buffers of sizes 2, 0, 3.\<close>

definition unary_dumps :: "nat \<Rightarrow> byte list" where
  "unary_dumps n = replicate n 1"

definition unary_loads :: "byte list \<Rightarrow> py_error + nat" where
  "unary_loads buffer = (if list_all (\<lambda>b. b = 1) buffer then Inr (length buffer) else Inl UnpicklingError)"

definition three_ranks :: dist_env where
  "three_ranks = \<lparr>dist_is_available = True, dist_is_initialized = True,
                  dist_get_world_size = 3, dist_get_rank = 1\<rparr>"

section \<open>Entering distributed mode (\<open>DistMisc.init_distributed_mode\<close>)\<close>















section \<open>The infinite data loader (\<open>InfiniteDataLoaderX\<close>, \<open>_RepeatSampler\<close>)\<close>


datatype ('x, 's) step = Yield 'x 's | StopIteration















section \<open>Reductions across ranks (\<open>DistMisc.reduce_sum\<close>, \<open>reduce_mean\<close>, \<open>reduce_dict\<close>)\<close>

text \<open>
  What these functions promise concerns the identity of objects (the input itself, a
  clone, a new dict) and of what stays unmodified, so tensors and dicts live in a heap:
  a map from addresses to objects with the next free address. A dict object holds the
  addresses of its values.
\<close>

type_synonym addr = nat

datatype obj = TensorObj tensor | DictObj "(string \<times> addr) list"

record heap =
  objects :: "addr \<Rightarrow> obj option"
  next_addr :: addr

definition heap_ok :: "heap \<Rightarrow> bool" where
  "heap_ok h = (\<forall>a. next_addr h \<le> a \<longrightarrow> objects h a = None)"

definition alloc :: "heap \<Rightarrow> obj \<Rightarrow> addr \<times> heap" where
  "alloc h v = (next_addr h, h\<lparr>objects := (objects h)(next_addr h \<mapsto> v),
                                  next_addr := Suc (next_addr h)\<rparr>)"

text \<open>
  Element-wise arithmetic. \<open>.float()\<close> is the identity on the exact values of this
  model. \<open>dist.all_reduce\<close> with the (default) \<open>SUM\<close> operation replaces a tensor by
  its sum with the tensors the other ranks contribute (\<open>peers\<close>); contributions of
  another shape are an error of the collective.
\<close>

definition tensor_add :: "tensor \<Rightarrow> tensor \<Rightarrow> tensor" where
  "tensor_add t u = Tensor (shape t) (map2 (+) (elems t) (elems u))"

definition tensor_div :: "tensor \<Rightarrow> int \<Rightarrow> tensor" where
  "tensor_div t n = Tensor (shape t) (map (\<lambda>x. x / of_int n) (elems t))"

definition tensor_float :: "tensor \<Rightarrow> tensor" where
  "tensor_float t = t"

definition dist_all_reduce_sum :: "tensor \<Rightarrow> tensor list \<Rightarrow> py_error + tensor" where
  "dist_all_reduce_sum t peers =
     (if list_all (\<lambda>u. shape u = shape t \<and> length (elems u) = length (elems t)) peers
      then Inr (fold (\<lambda>u acc. tensor_add acc u) peers t)
      else Inl RuntimeError)"

text \<open>
  \<open>reduce_sum\<close> returns the address it was given, or that of a clone it reduced in
  place; \<open>reduce_mean\<close> allocates the quotient.
\<close>

definition reduce_sum :: "dist_env \<Rightarrow> tensor list \<Rightarrow> heap \<Rightarrow> addr \<Rightarrow> py_error + addr \<times> heap" where
  "reduce_sum d peers h a =
     (if get_world_size d < 2 then Inr (a, h)
      else case objects h a of
             Some (TensorObj t) \<Rightarrow>
               (let (clone, h1) = alloc h (TensorObj t)
                in case dist_all_reduce_sum t peers of
                     Inl e \<Rightarrow> Inl e
                   | Inr summed \<Rightarrow> Inr (clone, h1\<lparr>objects := (objects h1)(clone \<mapsto> TensorObj summed)\<rparr>))
           | _ \<Rightarrow> Inl AttributeError)"

definition reduce_mean :: "dist_env \<Rightarrow> tensor list \<Rightarrow> heap \<Rightarrow> addr \<Rightarrow> py_error + addr \<times> heap" where
  "reduce_mean d peers h a =
     (let world_size = get_world_size d
      in case reduce_sum d peers h a of
           Inl e \<Rightarrow> Inl e
         | Inr (summed, h1) \<Rightarrow>
             (case objects h1 summed of
                Some (TensorObj t) \<Rightarrow> Inr (alloc h1 (TensorObj (tensor_div (tensor_float t) world_size)))
              | _ \<Rightarrow> Inl AttributeError))"


















text \<open>Examples: two ranks, a dict of two scalar losses, an empty dict, a vector.\<close>

definition two_ranks :: dist_env where
  "two_ranks = \<lparr>dist_is_available = True, dist_is_initialized = True,
                dist_get_world_size = 2, dist_get_rank = 0\<rparr>"





definition vector_heap :: heap where
  "vector_heap = \<lparr>objects = [0 \<mapsto> TensorObj (Tensor [2] [1, 2])], next_addr = 1\<rparr>"

chapter \<open>Properties\<close>

section \<open>Dict updates\<close>

lemma dict_set_fresh: "k \<notin> fst ` set d \<Longrightarrow> dict_set d k v = d @ [(k, v)]"
  by (induction d) auto



section \<open>Rank and world size without a process group\<close>

text \<open>
  Claim C7. When \<open>torch.distributed\<close> is unavailable or no process group is initialised,
  \<open>get_world_size\<close> is 1, \<open>get_rank\<close> is 0 and \<open>is_main_process\<close> holds; in every
  state \<open>is_main_process\<close> holds exactly when \<open>get_rank\<close> is 0.
\<close>

theorem single_process_defaults:
  "(\<not> (dist_is_available d \<and> dist_is_initialized d) \<longrightarrow>
      get_world_size d = 1 \<and> get_rank d = 0 \<and> is_main_process d)
   \<and> (is_main_process d \<longleftrightarrow> get_rank d = 0)"
  by (simp add: get_world_size_def get_rank_def is_main_process_def
      is_dist_avail_and_initialized_def)

theorem single_process_defaults_witness:
  "\<not> (dist_is_available \<lparr>dist_is_available = True, dist_is_initialized = False,
          dist_get_world_size = 4, dist_get_rank = 3\<rparr>
       \<and> dist_is_initialized \<lparr>dist_is_available = True, dist_is_initialized = False,
          dist_get_world_size = 4, dist_get_rank = 3\<rparr>)
   \<and> get_world_size \<lparr>dist_is_available = True, dist_is_initialized = False,
          dist_get_world_size = 4, dist_get_rank = 3\<rparr> = 1
   \<and> get_rank \<lparr>dist_is_available = True, dist_is_initialized = False,
          dist_get_world_size = 4, dist_get_rank = 3\<rparr> = 0
   \<and> is_main_process \<lparr>dist_is_available = True, dist_is_initialized = False,
          dist_get_world_size = 4, dist_get_rank = 3\<rparr>"
  using single_process_defaults [of "\<lparr>dist_is_available = True, dist_is_initialized = False,
          dist_get_world_size = 4, dist_get_rank = 3\<rparr>"]
  by simp

section \<open>Dict to namespace and back\<close>













section \<open>Collating a batch\<close>

lemma conforms_items_lookup:
  "conforms_items items items' \<Longrightarrow> (k, v) \<in> set items \<Longrightarrow>
     \<exists>w. map_of items' k = Some w \<and> conforms v w"
  by (induction items) (auto split: option.splits)

lemma conforms_getitem:
  "conforms (SDict items) d \<Longrightarrow> (k, v) \<in> set items \<Longrightarrow>
     \<exists>w. getitem d k = Inr w \<and> conforms v w"
  by (cases d) (auto dest: conforms_items_lookup)

lemma conforms_column:
  "\<forall>d \<in> set data. conforms (SDict items) d \<Longrightarrow> (k, v) \<in> set items \<Longrightarrow>
     \<exists>vs. column data k = Inr vs \<and> length vs = length data \<and> (\<forall>w \<in> set vs. conforms v w)"
proof (induction data)
  case Nil
  then show ?case by simp
next
  case (Cons d data)
  from Cons.prems obtain w where w: "getitem d k = Inr w" "conforms v w"
    using conforms_getitem by (metis list.set_intros(1))
  from Cons obtain vs where vs: "column data k = Inr vs" "length vs = length data"
      "\<forall>w \<in> set vs. conforms v w"
    by auto
  from w vs show ?case by simp
qed

lemma column_first:
  "distinct (map fst items) \<Longrightarrow> (k, v) \<in> set items \<Longrightarrow>
     column (SDict items # ds) k = Inr vs \<Longrightarrow> \<exists>rest. vs = v # rest"
  by (auto split: sum.splits option.splits)

lemma conforming_tensors:
  "\<forall>w \<in> set vs. conforms (STensor t) w \<Longrightarrow>
     \<exists>ts. as_tensors vs = Inr ts \<and> length ts = length vs \<and> (\<forall>u \<in> set ts. shape u = shape t)"
proof (induction vs)
  case Nil
  then show ?case by simp
next
  case (Cons w vs)
  then obtain u where "w = STensor u" "shape u = shape t"
    by (cases w) auto
  with Cons show ?case by auto
qed

lemma torch_stack_same_shape:
  "ts \<noteq> [] \<Longrightarrow> \<forall>u \<in> set ts. shape u = shape t \<Longrightarrow>
     torch_stack ts = Inr (Tensor (length ts # shape t) (concat (map elems ts)))"
  by (cases ts) (auto simp: torch_stack_def list_all_iff)

lemma conforming_strings:
  "\<forall>w \<in> set vs. conforms (SStr s) w \<Longrightarrow> \<forall>w \<in> set vs. \<exists>s'. w = SStr s'"
proof
  fix w assume "\<forall>w \<in> set vs. conforms (SStr s) w" "w \<in> set vs"
  then have "conforms (SStr s) w" by blast
  then show "\<exists>s'. w = SStr s'" by (cases w) auto
qed


lemma loop_step:
  assumes step: "collate_loop ((k, v) # rest) data batch = collate_loop rest data (batch @ [(k, x)])"
    and entry: "collated_entry data k v (Some x)"
    and v: "\<not> contains_other v"
    and fresh: "k \<notin> fst ` set rest"
    and IH: "loop_result rest data (batch @ [(k, x)]) (collate_loop rest data (batch @ [(k, x)]))"
  shows "loop_result ((k, v) # rest) data batch (collate_loop ((k, v) # rest) data batch)"
proof (cases "contains_other_items rest")
  case True
  with v IH show ?thesis
    by (simp add: loop_result_def step)
next
  case False
  from False IH obtain new where new:
      "collate_loop rest data (batch @ [(k, x)]) = Inr ((batch @ [(k, x)]) @ new)"
      "map fst new = map fst rest"
      "\<forall>(k', v') \<in> set rest. collated_entry data k' v' (map_of new k')"
    by (auto simp: loop_result_def)
  have others: "collated_entry data k' v' (map_of ((k, x) # new) k')"
    if "(k', v') \<in> set rest" for k' v'
  proof -
    from that fresh have "k' \<noteq> k" by force
    moreover from new(3) that have "collated_entry data k' v' (map_of new k')" by blast
    ultimately show ?thesis by simp
  qed
  have "collate_loop ((k, v) # rest) data batch = Inr (batch @ (k, x) # new)"
    using new(1) by (simp add: step)
  moreover have "map fst ((k, x) # new) = map fst ((k, v) # rest)"
    using new(2) by simp
  moreover have "\<forall>(k', v') \<in> set ((k, v) # rest). collated_entry data k' v' (map_of ((k, x) # new) k')"
    using entry others by auto
  ultimately show ?thesis
    using False v unfolding loop_result_def by (simp del: collated_entry.simps map_of.simps)
qed



lemma loop_context:
  assumes data: "data = SDict (pre @ (k, v) # rest) # ds"
    and conf: "\<forall>d \<in> set data. conforms (SDict (pre @ (k, v) # rest)) d"
    and batch: "map fst batch = map fst pre"
  shows "k \<notin> fst ` set rest"
    and "dict_set batch k x = batch @ [(k, x)]"
    and "\<exists>tl. column data k = Inr (v # tl) \<and> length (v # tl) = length data
           \<and> (\<forall>w \<in> set (v # tl). conforms v w)"
proof -
  have "conforms (SDict (pre @ (k, v) # rest)) (SDict (pre @ (k, v) # rest))"
    using conf by (simp add: data)
  then have dist: "distinct (map fst (pre @ (k, v) # rest))"
    by simp
  then show "k \<notin> fst ` set rest" by auto
  from dist have "k \<notin> fst ` set pre" by auto
  then have "k \<notin> fst ` set batch"
    using batch by (metis list.set_map)
  then show "dict_set batch k x = batch @ [(k, x)]"
    by (rule dict_set_fresh)
  have mem: "(k, v) \<in> set (pre @ (k, v) # rest)" by simp
  from conforms_column [OF conf mem] obtain vs where vs: "column data k = Inr vs"
      "length vs = length data" "\<forall>w \<in> set vs. conforms v w"
    by blast
  from column_first [OF dist mem] vs(1) obtain tl where "vs = v # tl"
    unfolding data by blast
  with vs show "\<exists>tl. column data k = Inr (v # tl) \<and> length (v # tl) = length data
           \<and> (\<forall>w \<in> set (v # tl). conforms v w)"
    by blast
qed

lemma collate_fn_conforming:
  "\<And>its others. data = SDict its # others \<Longrightarrow> \<forall>d \<in> set data. conforms (SDict its) d \<Longrightarrow>
     loop_result its data [] (collate_fn data)"
  and collate_loop_conforming:
  "\<And>pre others. data' = SDict (pre @ items') # others \<Longrightarrow>
     \<forall>d \<in> set data'. conforms (SDict (pre @ items')) d \<Longrightarrow>
     map fst batch = map fst pre \<Longrightarrow>
     loop_result items' data' batch (collate_loop items' data' batch)"
proof (induction data and items' data' batch rule: collate_fn_collate_loop.induct)
  case 1
  then show ?case by simp
next
  case (2 items ds its others)
  then have eq: "its = items" "others = ds" by simp_all
  have "loop_result items (SDict items # ds) [] (collate_loop items (SDict items # ds) [])"
    using "2.prems" by (intro "2.IH" [of "[]" ds]) (simp_all add: eq)
  then show ?case by (simp add: eq)
next
  case "3_1"
  then show ?case by simp
next
  case "3_2"
  then show ?case by simp
next
  case "3_3"
  then show ?case by simp
next
  case (4 data batch)
  then show ?case by (simp add: loop_result_def)
next
  case (5 k t rest data batch pre ds)
  note ctx = loop_context [OF "5.prems"]
  from ctx(3) obtain tl where col: "column data k = Inr (STensor t # tl)"
      and len: "length (STensor t # tl) = length data"
      and conf: "\<forall>w \<in> set (STensor t # tl). conforms (STensor t) w"
    by blast
  from conforming_tensors [OF conf] obtain ts where ts: "as_tensors (STensor t # tl) = Inr ts"
      "length ts = length (STensor t # tl)" "\<forall>u \<in> set ts. shape u = shape t"
    by blast
  from ts(2) have "ts \<noteq> []" by auto
  from torch_stack_same_shape [OF this ts(3)]
  have stacked: "stack_samples (STensor t # tl)
      = Inr (Tensor (length data # shape t) (concat (map elems ts)))"
    using ts(1,2) len by (simp add: stack_samples_def del: as_tensors.simps)
  let ?x = "BTensor (Tensor (length data # shape t) (concat (map elems ts)))"
  show ?case
  proof (rule loop_step [where x = ?x])
    show "collate_loop ((k, STensor t) # rest) data batch = collate_loop rest data (batch @ [(k, ?x)])"
      using col stacked ctx(2) by (simp del: column.simps)
    show "collated_entry data k (STensor t) (Some ?x)"
      using col ts len by (auto simp del: column.simps as_tensors.simps)
    show "\<not> contains_other (STensor t)" by simp
    show "k \<notin> fst ` set rest" by (rule ctx(1))
    have "loop_result rest data (dict_set batch k ?x) (collate_loop rest data (dict_set batch k ?x))"
      using "5.prems" ctx(2) by (intro "5.IH" [OF col stacked, of "pre @ [(k, STensor t)]" ds]) simp_all
    then show "loop_result rest data (batch @ [(k, ?x)]) (collate_loop rest data (batch @ [(k, ?x)]))"
      by (simp add: ctx(2))
  qed
next
  case (6 k s rest data batch pre ds)
  note ctx = loop_context [OF "6.prems"]
  from ctx(3) obtain tl where col: "column data k = Inr (SStr s # tl)"
      and len: "length (SStr s # tl) = length data"
      and conf: "\<forall>w \<in> set (SStr s # tl). conforms (SStr s) w"
    by blast
  let ?x = "NoCudaList (SStr s # tl)"
  show ?case
  proof (rule loop_step [where x = ?x])
    show "collate_loop ((k, SStr s) # rest) data batch = collate_loop rest data (batch @ [(k, ?x)])"
      using col ctx(2) by (simp del: column.simps)
    show "collated_entry data k (SStr s) (Some ?x)"
      using col len conforming_strings [OF conf] by (auto simp del: column.simps)
    show "\<not> contains_other (SStr s)" by simp
    show "k \<notin> fst ` set rest" by (rule ctx(1))
    have "loop_result rest data (dict_set batch k ?x) (collate_loop rest data (dict_set batch k ?x))"
      using "6.prems" ctx(2) by (intro "6.IH" [OF col, of "pre @ [(k, SStr s)]" ds]) simp_all
    then show "loop_result rest data (batch @ [(k, ?x)]) (collate_loop rest data (batch @ [(k, ?x)]))"
      by (simp add: ctx(2))
  qed
next
  case (7 k sub rest data batch pre ds)
  note ctx = loop_context [OF "7.prems"]
  from ctx(3) obtain tl where col: "column data k = Inr (SDict sub # tl)"
      and len: "length (SDict sub # tl) = length data"
      and conf: "\<forall>w \<in> set (SDict sub # tl). conforms (SDict sub) w"
    by blast
  have inner: "loop_result sub (SDict sub # tl) [] (collate_fn (SDict sub # tl))"
    using conf by (intro "7.IH"(1) [OF col]) simp_all
  show ?case
  proof (cases "contains_other_items sub")
    case True
    with inner have "collate_fn (SDict sub # tl) = Inl NotImplementedError"
      by (simp add: loop_result_def del: collate_fn.simps)
    with col True show ?thesis
      by (simp add: loop_result_def del: column.simps collate_fn.simps)
  next
    case False
    with inner obtain b where b: "collate_fn (SDict sub # tl) = Inr b"
      by (auto simp: loop_result_def simp del: collate_fn.simps)
    let ?x = "BDict b"
    show ?thesis
    proof (rule loop_step [where x = ?x])
      show "collate_loop ((k, SDict sub) # rest) data batch = collate_loop rest data (batch @ [(k, ?x)])"
        using col b ctx(2) by (simp del: column.simps collate_fn.simps)
      show "collated_entry data k (SDict sub) (Some ?x)"
        using col len b by (auto simp del: column.simps collate_fn.simps)
      show "\<not> contains_other (SDict sub)" using False by simp
      show "k \<notin> fst ` set rest" by (rule ctx(1))
      have "loop_result rest data (dict_set batch k ?x) (collate_loop rest data (dict_set batch k ?x))"
        using "7.prems" ctx(2) by (intro "7.IH"(2) [OF col b, of "pre @ [(k, SDict sub)]" ds]) simp_all
      then show "loop_result rest data (batch @ [(k, ?x)]) (collate_loop rest data (batch @ [(k, ?x)]))"
        by (simp add: ctx(2))
    qed
  qed
next
  case (8 k rest data batch)
  then show ?case by (simp add: loop_result_def)
qed


lemma as_tensors_map: "as_tensors vs = Inr ts \<Longrightarrow> vs = map STensor ts"
proof (induction vs arbitrary: ts)
  case Nil
  then show ?case by simp
next
  case (Cons w vs)
  then show ?case by (cases w) (auto split: sum.splits)
qed

lemma all_strings_map: "\<forall>w \<in> set vs. \<exists>s'. w = SStr s' \<Longrightarrow> \<exists>ss. vs = map SStr ss"
proof (induction vs)
  case Nil
  then show ?case by simp
next
  case (Cons w vs)
  then obtain s' ss where "w = SStr s'" "vs = map SStr ss" by auto
  then have "w # vs = map SStr (s' # ss)" by simp
  then show ?case by (rule exI [where x = "s' # ss"])
qed

text \<open>
  Claim C8. For a non-empty batch list whose first element is a dict and whose elements
  all have the keys and value shapes of the first: if a value of another type occurs in
  the first element, \<open>collate_fn\<close> raises \<open>NotImplementedError\<close>; otherwise it returns
  a dict with exactly the first element's keys, where a tensor field holds the stack of
  the field's tensors over the batch (shape \<open>len(data) # shape\<close>), a string field the
  list of the field's strings, and a dict field the result of \<open>collate_fn\<close> on the
  field's dicts.
\<close>

theorem collate_fn_batch:
  assumes "list_all (conforms (SDict items)) (SDict items # ds)"
  shows "(contains_other_items items \<longrightarrow>
            collate_fn (SDict items # ds) = Inl NotImplementedError)
       \<and> (\<not> contains_other_items items \<longrightarrow>
            (\<exists>batch. collate_fn (SDict items # ds) = Inr batch
               \<and> map fst batch = map fst items
               \<and> (\<forall>k t. (k, STensor t) \<in> set items \<longrightarrow>
                     (\<exists>ts. column (SDict items # ds) k = Inr (map STensor ts)
                        \<and> length ts = length (SDict items # ds)
                        \<and> map_of batch k = Some (BTensor
                             (Tensor (length (SDict items # ds) # shape t) (concat (map elems ts))))))
               \<and> (\<forall>k s. (k, SStr s) \<in> set items \<longrightarrow>
                     (\<exists>ss. column (SDict items # ds) k = Inr (map SStr ss)
                        \<and> length ss = length (SDict items # ds)
                        \<and> map_of batch k = Some (NoCudaList (map SStr ss))))
               \<and> (\<forall>k sub. (k, SDict sub) \<in> set items \<longrightarrow>
                     (\<exists>vs b. column (SDict items # ds) k = Inr vs
                        \<and> length vs = length (SDict items # ds)
                        \<and> collate_fn vs = Inr b
                        \<and> map_of batch k = Some (BDict b)))))"
proof -
  let ?data = "SDict items # ds"
  have res: "loop_result items ?data [] (collate_fn ?data)"
    using assms by (intro collate_fn_conforming) (simp_all add: list_all_iff)
  show ?thesis
  proof (cases "contains_other_items items")
    case True
    with res show ?thesis
      by (simp add: loop_result_def del: collate_fn.simps)
  next
    case False
    with res obtain batch where batch: "collate_fn ?data = Inr batch"
        "map fst batch = map fst items"
        "\<forall>(k, v) \<in> set items. collated_entry ?data k v (map_of batch k)"
      by (auto simp: loop_result_def simp del: collate_fn.simps)
    have tensors: "\<exists>ts. column ?data k = Inr (map STensor ts) \<and> length ts = length ?data
        \<and> map_of batch k = Some (BTensor (Tensor (length ?data # shape t) (concat (map elems ts))))"
      if "(k, STensor t) \<in> set items" for k t
    proof -
      from batch(3) that have "collated_entry ?data k (STensor t) (map_of batch k)" by blast
      then obtain vs ts where "column ?data k = Inr vs" "as_tensors vs = Inr ts"
          "length ts = length ?data"
          "map_of batch k = Some (BTensor (Tensor (length ?data # shape t) (concat (map elems ts))))"
        by (auto simp del: column.simps)
      moreover from this have "vs = map STensor ts" by (intro as_tensors_map)
      ultimately show ?thesis by blast
    qed
    have strings: "\<exists>ss. column ?data k = Inr (map SStr ss) \<and> length ss = length ?data
        \<and> map_of batch k = Some (NoCudaList (map SStr ss))"
      if "(k, SStr s) \<in> set items" for k s
    proof -
      from batch(3) that have "collated_entry ?data k (SStr s) (map_of batch k)" by blast
      then obtain vs where vs: "column ?data k = Inr vs" "length vs = length ?data"
          "\<forall>w \<in> set vs. \<exists>s'. w = SStr s'" "map_of batch k = Some (NoCudaList vs)"
        by (auto simp del: column.simps)
      from all_strings_map [OF vs(3)] obtain ss where "vs = map SStr ss" by blast
      with vs show ?thesis by (metis length_map)
    qed
    have dicts: "\<exists>vs b. column ?data k = Inr vs \<and> length vs = length ?data
        \<and> collate_fn vs = Inr b \<and> map_of batch k = Some (BDict b)"
      if "(k, SDict sub) \<in> set items" for k sub
    proof -
      from batch(3) that have "collated_entry ?data k (SDict sub) (map_of batch k)" by blast
      then show ?thesis by (auto simp del: column.simps collate_fn.simps)
    qed
    from False batch(1,2) tensors strings dicts show ?thesis
      by (simp del: column.simps collate_fn.simps) blast
  qed
qed

theorem collate_fn_batch_witness:
  "list_all (conforms (SDict example_first)) (SDict example_first # [example_second])
   \<and> \<not> contains_other_items example_first
   \<and> collate_fn (SDict example_first # [example_second])
       = Inr [(''x'', BTensor (Tensor [2, 2] [1, 2, 3, 4])),
              (''name'', NoCudaList [SStr ''a'', SStr ''b'']),
              (''meta'', BDict [(''y'', BTensor (Tensor [2] [5, 6]))])]"
proof -
  have h: "list_all (conforms (SDict example_first)) (SDict example_first # [example_second])"
    by (auto simp: example_first_def example_second_def)
  have c: "\<not> contains_other_items example_first"
    by (simp add: example_first_def)
  have r: "collate_fn (SDict example_first # [example_second])
       = Inr [(''x'', BTensor (Tensor [2, 2] [1, 2, 3, 4])),
              (''name'', NoCudaList [SStr ''a'', SStr ''b'']),
              (''meta'', BDict [(''y'', BTensor (Tensor [2] [5, 6]))])]"
    by (simp add: example_first_def example_second_def stack_samples_def torch_stack_def)
  from collate_fn_batch [OF h] h c r show ?thesis by blast
qed

section \<open>Checkpoint files\<close>















lemma example_save:
  "save_checkpoint main_env example_cfg always_best (example_status, example_dir)
     = Returned (example_status\<lparr>best_metrics := [(''loss'', 1 / 2)]\<rparr>, saved_dir)"
  by (simp add: save_checkpoint_def main_env_def example_cfg_def always_best_def
      example_status_def example_dir_def saved_dir_def is_main_process_def get_rank_def
      is_dist_avail_and_initialized_def save_single_def glob_def fnmatch_def
      best_prefix_def last_prefix_def str_int_def torch_save_def os_rename_def
      dict_update_def Let_def)


text \<open>
  Claim C1 at a concrete run. \<open>save_checkpoint\<close> stores the validation metrics under
  the key \<open>last_metric\<close>; \<open>resume_training\<close> reads \<open>last_metrics\<close>, finds nothing and
  resumes with empty metrics, while it restores the state dicts, the best metrics, the
  start epoch and the iteration count.
\<close>

theorem resume_loses_last_metrics:
  "save_checkpoint main_env example_cfg always_best (example_status, example_dir)
     = Returned (example_status\<lparr>best_metrics := [(''loss'', 1 / 2)]\<rparr>, saved_dir)
   \<and> glob last_prefix ''.pth'' saved_dir = [''checkpoint_last_epoch_3.pth'']
   \<and> map_option (\<lambda>checkpoint. map_of checkpoint ''last_metric'')
         (map_of saved_dir ''checkpoint_last_epoch_3.pth'')
       = Some (Some (Metrics [(''loss'', 1 / 2)]))
   \<and> resume_training example_cfg saved_dir new_status
       = Returned (new_status\<lparr>model_without_ddp := ''model@3'', optimizer := ''optimizer@3'',
            lr_scheduler := ''scheduler@3'', start_epoch := 4,
            best_metrics := [(''loss'', 1 / 2)], metrics := [], train_iters := 300\<rparr>)"
proof -
  have g: "glob last_prefix ''.pth'' saved_dir = [''checkpoint_last_epoch_3.pth'']"
    by (simp add: saved_dir_def glob_def fnmatch_def last_prefix_def)
  have m: "map_option (\<lambda>checkpoint. map_of checkpoint ''last_metric'')
         (map_of saved_dir ''checkpoint_last_epoch_3.pth'')
       = Some (Some (Metrics [(''loss'', 1 / 2)]))"
    by (simp add: saved_dir_def)
  have r: "resume_training example_cfg saved_dir new_status
       = Returned (new_status\<lparr>model_without_ddp := ''model@3'', optimizer := ''optimizer@3'',
            lr_scheduler := ''scheduler@3'', start_epoch := 4,
            best_metrics := [(''loss'', 1 / 2)], metrics := [], train_iters := 300\<rparr>)"
    by (simp add: resume_training_def g torch_load_def example_cfg_def new_status_def Let_def)
       (simp add: saved_dir_def)
  from example_save g m r show ?thesis by blast
qed

section \<open>Gathering picklable data\<close>

lemma dist_all_gather_all:
  "int (length xs) = world_size \<Longrightarrow> dist_all_gather world_size xs = xs"
  by (auto simp: dist_all_gather_def intro: nth_equalityI)

lemma fold_max_ge: "x \<le> fold max xs (x::nat)" and fold_max_mem: "\<forall>y \<in> set xs. y \<le> fold max xs x"
proof -
  have "x \<le> fold max xs x \<and> (\<forall>y \<in> set xs. y \<le> fold max xs x)"
  proof (induction xs arbitrary: x)
    case Nil
    then show ?case by simp
  next
    case (Cons a xs)
    have "max a x \<le> fold max xs (max a x)" and "\<forall>y \<in> set xs. y \<le> fold max xs (max a x)"
      using Cons.IH [of "max a x"] by simp_all
    then show ?case by auto
  qed
  then show "x \<le> fold max xs x" and "\<forall>y \<in> set xs. y \<le> fold max xs x" by simp_all
qed

lemma py_max_upper: "py_max xs = Inr m \<Longrightarrow> \<forall>y \<in> set xs. y \<le> m"
  using fold_max_ge fold_max_mem by (cases xs) auto

lemma take_pad_to: "length t \<le> max_size \<Longrightarrow> take (length t) (pad_to memory max_size t) = t"
  by (simp add: pad_to_def)

lemma length_pad_to: "length t \<le> max_size \<Longrightarrow> length (pad_to memory max_size t) = max_size"
  by (simp add: pad_to_def torch_empty_def)

lemma unpickle_all_round_trip:
  "list_all (\<lambda>x. loads (dumps x) = Inr x) xs \<Longrightarrow>
   \<forall>x \<in> set xs. length (dumps x) \<le> max_size \<Longrightarrow>
   unpickle_all loads (zip (map (\<lambda>x. length (dumps x)) xs)
       (map (\<lambda>(rank, x). pad_to (memory rank) max_size (dumps x)) (zip ranks xs))) = Inr (take (length ranks) xs)"
proof (induction xs arbitrary: ranks)
  case Nil
  then show ?case by simp
next
  case (Cons x xs)
  show ?case
  proof (cases ranks)
    case Nil
    then show ?thesis by simp
  next
    case (Cons r rs)
    with Cons.prems Cons.IH [of rs] show ?thesis
      by (simp add: take_pad_to)
  qed
qed


text \<open>
  Claim C5. When every rank's input is picklable (\<open>loads (dumps x)\<close> gives \<open>x\<close> back),
  \<open>all_gather\<close> returns the list of the ranks' inputs: its length is the world size and
  its element \<open>i\<close> is rank \<open>i\<close>'s input. With world size 1 the result is \<open>[data]\<close>
  whatever \<open>dumps\<close>, \<open>loads\<close> and the memory are (nothing is serialised); otherwise
  truncating the gathered buffer of rank \<open>i\<close> to the size rank \<open>i\<close> sent gives back its
  pickled bytes.
\<close>

theorem all_gather_round_trip:
  assumes picklable: "list_all (\<lambda>x. loads (dumps x) = Inr x) datas"
    and ranks: "int (length datas) = get_world_size d"
    and rank: "0 \<le> get_rank d" "get_rank d < get_world_size d"
  shows "all_gather d dumps loads memory datas = Inr datas
       \<and> int (length datas) = get_world_size d
       \<and> (get_world_size d = 1 \<longrightarrow>
            all_gather d dumps' loads' memory' datas = Inr [datas ! nat (get_rank d)])
       \<and> (\<forall>max_size. py_max (gathered_sizes (get_world_size d) dumps datas) = Inr max_size \<longrightarrow>
            (\<forall>i < length datas.
               take (gathered_sizes (get_world_size d) dumps datas ! i)
                    (gathered_tensors (get_world_size d) dumps memory max_size datas ! i)
               = dumps (datas ! i)))"
proof -
  let ?ws = "get_world_size d"
  let ?sizes = "map (\<lambda>x. length (dumps x)) datas"
  have sizes: "gathered_sizes ?ws dumps datas = ?sizes"
    using ranks by (simp add: gathered_sizes_def dist_all_gather_all)
  have tensors: "gathered_tensors ?ws dumps memory m datas
      = map (\<lambda>(rank, x). pad_to (memory rank) m (dumps x)) (zip [0..<length datas] datas)" for m
    using ranks by (simp add: gathered_tensors_def dist_all_gather_all)
  have nonempty: "datas \<noteq> []"
    using ranks rank by auto
  then obtain m where m: "py_max ?sizes = Inr m"
    by (cases datas) auto
  have bound: "\<forall>x \<in> set datas. length (dumps x) \<le> m"
    using py_max_upper [OF m] by simp
  have many: "all_gather d dumps loads memory datas = Inr datas" if "?ws \<noteq> 1"
  proof -
    have "unpickle_all loads (zip ?sizes
        (map (\<lambda>(rank, x). pad_to (memory rank) m (dumps x)) (zip [0..<length datas] datas)))
        = Inr (take (length [0..<length datas]) datas)"
      by (rule unpickle_all_round_trip [OF picklable bound])
    then show ?thesis
      using that by (simp add: all_gather_def sizes tensors m)
  qed
  have single: "all_gather d dumps' loads' memory' datas = Inr [datas ! nat (get_rank d)]"
    if "?ws = 1" for dumps' :: "'a \<Rightarrow> byte list" and loads' memory'
    using that by (simp add: all_gather_def)
  have one: "[datas ! nat (get_rank d)] = datas" if "?ws = 1"
  proof -
    from that ranks rank have "length datas = 1" "nat (get_rank d) = 0" by simp_all
    then show ?thesis by (cases datas) auto
  qed
  have first: "all_gather d dumps loads memory datas = Inr datas"
    using many single [of dumps loads memory] one by (cases "?ws = 1") simp_all
  have trunc: "take (gathered_sizes ?ws dumps datas ! i)
        (gathered_tensors ?ws dumps memory max_size datas ! i) = dumps (datas ! i)"
    if "py_max (gathered_sizes ?ws dumps datas) = Inr max_size" "i < length datas" for max_size i
  proof -
    from that(1) have "max_size = m" by (simp add: sizes m)
    with bound that(2) have "length (dumps (datas ! i)) \<le> max_size" by simp
    then show ?thesis
      using that(2) by (simp add: sizes tensors take_pad_to)
  qed
  from first ranks single trunc show ?thesis by blast
qed


theorem all_gather_round_trip_witness:
  "list_all (\<lambda>x. unary_loads (unary_dumps x) = Inr x) [2, 0, 3]
   \<and> int (length [2, 0, 3 :: nat]) = get_world_size three_ranks
   \<and> 0 \<le> get_rank three_ranks
   \<and> get_rank three_ranks < get_world_size three_ranks
   \<and> all_gather three_ranks unary_dumps unary_loads (\<lambda>rank i. 0) [2, 0, 3] = Inr [2, 0, 3]"
proof -
  have h1: "list_all (\<lambda>x. unary_loads (unary_dumps x) = Inr x) [2, 0, 3]"
    by (simp add: unary_loads_def unary_dumps_def list_all_iff)
  have h2: "int (length [2, 0, 3 :: nat]) = get_world_size three_ranks"
    by (simp add: three_ranks_def get_world_size_def is_dist_avail_and_initialized_def)
  have h3: "0 \<le> get_rank three_ranks"
    by (simp add: three_ranks_def get_rank_def is_dist_avail_and_initialized_def)
  have h4: "get_rank three_ranks < get_world_size three_ranks"
    by (simp add: three_ranks_def get_rank_def get_world_size_def is_dist_avail_and_initialized_def)
  from all_gather_round_trip [OF h1 h2 h3 h4, of "\<lambda>rank i. 0"] h1 h2 h3 h4
  show ?thesis by blast
qed

section \<open>Entering distributed mode\<close>







section \<open>The infinite data loader\<close>













section \<open>Reductions across ranks\<close>

text \<open>
  Claim C9. \<open>reduce_sum\<close> returns its argument itself, with the heap untouched, when
  the world size is below 2; otherwise it returns a new tensor (a clone) holding the sum
  of the tensor with the other ranks' tensors. \<open>reduce_mean\<close> returns a tensor holding
  what \<open>reduce_sum\<close> returns, cast to float and divided by the world size. In both
  cases the input tensor still holds its value.
\<close>

theorem reduce_mean_is_scaled_sum:
  assumes ok: "heap_ok h"
    and t: "objects h a = Some (TensorObj t)"
    and same: "list_all (\<lambda>u. shape u = shape t \<and> length (elems u) = length (elems t)) peers"
  shows "(get_world_size d < 2 \<longrightarrow> reduce_sum d peers h a = Inr (a, h))
       \<and> (2 \<le> get_world_size d \<longrightarrow>
            (\<exists>clone h'. reduce_sum d peers h a = Inr (clone, h')
               \<and> clone \<noteq> a \<and> objects h clone = None
               \<and> objects h' clone = Some (TensorObj (fold (\<lambda>u acc. tensor_add acc u) peers t))
               \<and> dist_all_reduce_sum t peers = Inr (fold (\<lambda>u acc. tensor_add acc u) peers t)))
       \<and> (\<exists>summed h' s mean h''. reduce_sum d peers h a = Inr (summed, h')
               \<and> objects h' summed = Some (TensorObj s)
               \<and> objects h' a = Some (TensorObj t)
               \<and> reduce_mean d peers h a = Inr (mean, h'')
               \<and> objects h'' mean = Some (TensorObj (tensor_div (tensor_float s) (get_world_size d)))
               \<and> objects h'' a = Some (TensorObj t))"
proof -
  let ?sum = "fold (\<lambda>u acc. tensor_add acc u) peers t"
  have fresh: "objects h (next_addr h) = None" and neq: "next_addr h \<noteq> a"
    using ok t by (auto simp: heap_ok_def)
  have red: "dist_all_reduce_sum t peers = Inr ?sum"
    using same by (simp add: dist_all_reduce_sum_def)
  show ?thesis
  proof (cases "get_world_size d < 2")
    case True
    have s: "reduce_sum d peers h a = Inr (a, h)"
      using True by (simp add: reduce_sum_def)
    have "reduce_mean d peers h a
        = Inr (next_addr h, h\<lparr>objects := (objects h)(next_addr h \<mapsto>
              TensorObj (tensor_div (tensor_float t) (get_world_size d))),
            next_addr := Suc (next_addr h)\<rparr>)"
      by (simp add: reduce_mean_def s t alloc_def)
    with True s t neq show ?thesis by auto
  next
    case False
    let ?h1 = "h\<lparr>objects := (objects h)(next_addr h \<mapsto> TensorObj ?sum),
                  next_addr := Suc (next_addr h)\<rparr>"
    have s: "reduce_sum d peers h a = Inr (next_addr h, ?h1)"
      using False by (simp add: reduce_sum_def t alloc_def red)
    have m: "reduce_mean d peers h a
        = Inr (Suc (next_addr h), ?h1\<lparr>objects := (objects ?h1)(Suc (next_addr h) \<mapsto>
              TensorObj (tensor_div (tensor_float ?sum) (get_world_size d))),
            next_addr := Suc (Suc (next_addr h))\<rparr>)"
      by (simp add: reduce_mean_def s alloc_def)
    have a_lt: "a \<noteq> Suc (next_addr h)"
      using ok t by (auto simp: heap_ok_def)
    from False s m t neq fresh red a_lt show ?thesis by auto
  qed
qed


theorem reduce_mean_is_scaled_sum_witness:
  "heap_ok vector_heap
   \<and> objects vector_heap 0 = Some (TensorObj (Tensor [2] [1, 2]))
   \<and> 2 \<le> get_world_size two_ranks
   \<and> list_all (\<lambda>u. shape u = shape (Tensor [2] [1, 2])
                   \<and> length (elems u) = length (elems (Tensor [2] [1, 2]))) [Tensor [2] [3, 5]]
   \<and> (\<exists>clone h'. reduce_sum two_ranks [Tensor [2] [3, 5]] vector_heap 0 = Inr (clone, h')
          \<and> clone \<noteq> 0
          \<and> objects h' clone = Some (TensorObj (Tensor [2] [4, 7])))
   \<and> (\<exists>mean h''. reduce_mean two_ranks [Tensor [2] [3, 5]] vector_heap 0 = Inr (mean, h'')
          \<and> objects h'' mean = Some (TensorObj (Tensor [2] [2, 7 / 2]))
          \<and> objects h'' 0 = Some (TensorObj (Tensor [2] [1, 2])))"
proof -
  have h1: "heap_ok vector_heap"
    by (simp add: heap_ok_def vector_heap_def)
  have h2: "objects vector_heap 0 = Some (TensorObj (Tensor [2] [1, 2]))"
    by (simp add: vector_heap_def)
  have ws: "get_world_size two_ranks = 2"
    by (simp add: two_ranks_def get_world_size_def is_dist_avail_and_initialized_def)
  have h3: "2 \<le> get_world_size two_ranks"
    by (simp add: ws)
  have h4: "list_all (\<lambda>u. shape u = shape (Tensor [2] [1, 2])
                   \<and> length (elems u) = length (elems (Tensor [2] [1, 2]))) [Tensor [2] [3, 5]]"
    by simp
  have sum: "fold (\<lambda>u acc. tensor_add acc u) [Tensor [2] [3, 5]] (Tensor [2] [1, 2]) = Tensor [2] [4, 7]"
    by (simp add: tensor_add_def)
  have mean: "tensor_div (tensor_float (Tensor [2] [4, 7])) 2 = Tensor [2] [2, 7 / 2]"
    by (simp add: tensor_div_def tensor_float_def)
  note inst = reduce_mean_is_scaled_sum [OF h1 h2 h4, of two_ranks]
  from inst have a: "\<exists>clone h'. reduce_sum two_ranks [Tensor [2] [3, 5]] vector_heap 0 = Inr (clone, h')
          \<and> clone \<noteq> 0
          \<and> objects h' clone = Some (TensorObj (Tensor [2] [4, 7]))"
    by (auto simp: ws tensor_add_def)
  from inst a have b: "\<exists>mean h''. reduce_mean two_ranks [Tensor [2] [3, 5]] vector_heap 0 = Inr (mean, h'')
          \<and> objects h'' mean = Some (TensorObj (Tensor [2] [2, 7 / 2]))
          \<and> objects h'' 0 = Some (TensorObj (Tensor [2] [1, 2]))"
    by (auto simp: ws tensor_add_def tensor_div_def tensor_float_def)
  from h1 h2 h3 h4 a b show ?thesis by blast
qed







































end
